theory Spec2Isabelle
  imports Main
begin

section \<open>Text\<close>

text \<open>
  A Python string is modelled as an Isabelle \<open>string\<close>: a list of characters with the
  code points U+0000 to U+00FF. The two tables below are Python's on that range:
  \<open>str.isspace\<close>, which decides what \<open>str.rstrip()\<close> and \<open>str.strip()\<close> remove, and the
  word characters \<open>\w\<close> of the \<open>re\<close> module (alphanumeric or underscore), which decide
  where \<open>\b\<close> matches.
\<close>

definition isspace :: "char \<Rightarrow> bool" where
  "isspace c = (let n = of_char c :: nat in
     (9 \<le> n \<and> n \<le> 13) \<or> (28 \<le> n \<and> n \<le> 32) \<or> n = 133 \<or> n = 160)"

definition is_word_char :: "char \<Rightarrow> bool" where
  "is_word_char c = (let n = of_char c :: nat in
     (48 \<le> n \<and> n \<le> 57) \<or> (65 \<le> n \<and> n \<le> 90) \<or> n = 95 \<or> (97 \<le> n \<and> n \<le> 122) \<or>
     n = 170 \<or> n = 178 \<or> n = 179 \<or> n = 181 \<or> n = 185 \<or> n = 186 \<or>
     (188 \<le> n \<and> n \<le> 190) \<or> (192 \<le> n \<and> n \<le> 214) \<or> (216 \<le> n \<and> n \<le> 246) \<or>
     248 \<le> n)"


definition rstrip :: "string \<Rightarrow> string" where
  "rstrip s = rev (dropWhile isspace (rev s))"


text \<open>
  \<open>s.split('\n')\<close>: the pieces between the newlines, one more than there are newlines, so
  the empty string gives one empty piece. The result is never the empty list; the first
  branch of the \<open>case\<close> is there for totality only.
\<close>

fun split_newline :: "string \<Rightarrow> string list" where
  "split_newline [] = [[]]"
| "split_newline (c # cs) =
     (if c = CHR 0x0A then [] # split_newline cs
      else (case split_newline cs of
              [] \<Rightarrow> [[c]]
            | l # ls \<Rightarrow> (c # l) # ls))"

text \<open>\<open>'\n'.join(pieces)\<close>, the inverse of the split.\<close>

fun join_newline :: "string list \<Rightarrow> string" where
  "join_newline [] = []"
| "join_newline [l] = l"
| "join_newline (l # m # ls) = l @ CHR 0x0A # join_newline (m # ls)"

section \<open>The line classifier\<close>

text \<open>
  \<open>re.search(r'\b(w1|w2|...)\b', line)\<close> for literal alternatives. The search tries every
  start position from the left; at a position the pattern matches when \<open>\b\<close> holds there,
  one of the alternatives is a prefix of the rest of the line, and \<open>\b\<close> holds again behind
  it. \<open>\b\<close> holds between two positions exactly when one side is a word character and the
  other is not, the start and the end of the line counting as no word character. The
  scan carries \<open>prev\<close>, whether the character before the position is a word character.
\<close>

fun next_is_word :: "string \<Rightarrow> bool" where
  "next_is_word [] = False"
| "next_is_word (c # cs) = is_word_char c"

definition word_boundary :: "bool \<Rightarrow> string \<Rightarrow> bool" where
  "word_boundary prev rest = (prev \<noteq> next_is_word rest)"

fun match_literal :: "string \<Rightarrow> bool \<Rightarrow> string \<Rightarrow> (bool \<times> string) option" where
  "match_literal [] prev s = Some (prev, s)"
| "match_literal (k # ks) prev [] = None"
| "match_literal (k # ks) prev (c # cs) =
     (if k = c then match_literal ks (is_word_char c) cs else None)"

definition match_here :: "string list \<Rightarrow> bool \<Rightarrow> string \<Rightarrow> bool" where
  "match_here alts prev s =
     (word_boundary prev s \<and>
      list_ex (\<lambda>k. case match_literal k prev s of
                      None \<Rightarrow> False
                    | Some (prev', rest) \<Rightarrow> word_boundary prev' rest) alts)"

fun search_from :: "string list \<Rightarrow> bool \<Rightarrow> string \<Rightarrow> bool" where
  "search_from alts prev [] = match_here alts prev []"
| "search_from alts prev (c # cs) =
     (match_here alts prev (c # cs) \<or> search_from alts (is_word_char c) cs)"

definition re_search_words :: "string list \<Rightarrow> string \<Rightarrow> bool" where
  "re_search_words alts line = search_from alts False line"

text \<open>
  The alternatives of the four patterns of \<open>detect_log_level\<close>, in the order of the source.
  The Success pattern has two more alternatives, the check marks U+2713 and U+2714; they
  lie outside the code points of a \<open>string\<close> and can match no line of the model.
\<close>

definition error_words :: "string list" where
  "error_words = [''error'', ''ERROR'', ''Error'', ''failed'', ''FAILED'', ''Failed'',
                  ''exception'', ''Exception'', ''EXCEPTION'']"

definition warning_words :: "string list" where
  "warning_words = [''warning'', ''WARNING'', ''Warning'', ''warn'', ''WARN'', ''Warn'']"

definition success_words :: "string list" where
  "success_words = [''success'', ''SUCCESS'', ''Success'', ''passed'', ''PASSED'', ''Passed'',
                    ''completed'', ''COMPLETED'', ''Completed'']"

definition info_words :: "string list" where
  "info_words = [''info'', ''INFO'', ''Info'', ''note'', ''NOTE'', ''Note'']"

definition detect_log_level :: "string \<Rightarrow> string" where
  "detect_log_level line =
     (if re_search_words error_words line then ''Error''
      else if re_search_words warning_words line then ''Warning''
      else if re_search_words success_words line then ''Success''
      else if re_search_words info_words line then ''Info''
      else ''Other'')"

section \<open>The window's state\<close>

text \<open>
  The fields of \<open>FeedbackUI\<close> that the run, log and submit handlers read and write. A log
  entry is the tuple \<open>(line, level, line_number)\<close> of \<open>log_entries\<close>. The widgets are
  modelled by what the handlers read from them or write to them: the text of
  \<open>command_entry\<close>, \<open>feedback_text\<close> and \<open>run_button\<close>, the current text of the
  \<open>log_level_filter\<close> combo box, the state of \<open>show_line_numbers_check\<close>, whether the
  window is shown, and for the \<open>log_text\<close> view the lines appended to it. A line of the view
  is \<open>line_prefix + highlight_log_line(line)\<close>; the model keeps what this markup is
  computed from, the line number when the prefix is shown and the raw line.

  A \<open>FeedbackResult\<close> is a dictionary with the keys of its construction, in their order.
  A history entry keeps the feedback and the first 100 characters of the prompt; its
  time stamp and the history file are left out.
\<close>

type_synonym log_entry = "string \<times> string \<times> nat"

type_synonym view_line = "nat option \<times> string"

record FeedbackUI =
  prompt :: string
  history :: "(string \<times> string) list"
  process :: "nat option"
  log_buffer :: "string list"
  log_entries :: "log_entry list"
  feedback_result :: "(string \<times> string) list option"
  visible :: bool
  command_entry :: string
  run_button :: string
  log_level_filter :: string
  show_line_numbers_check :: bool
  log_text :: "view_line list"
  feedback_text :: string

definition FeedbackResult :: "string \<Rightarrow> string \<Rightarrow> (string \<times> string) list" where
  "FeedbackResult logs_value user_feedback_value =
     [(''logs'', logs_value), (''user_feedback'', user_feedback_value)]"

text \<open>
  The window as \<open>__init__\<close> leaves it, before the automatic run of the configured command:
  no process, no logs, no result, the filter on its first item. The command of the
  configuration and the stored line-number setting are arguments.
\<close>

definition new_window :: "string \<Rightarrow> string \<Rightarrow> bool \<Rightarrow> FeedbackUI" where
  "new_window prompt_text run_command_text line_numbers =
     \<lparr> prompt = prompt_text, history = [], process = None, log_buffer = [],
       log_entries = [], feedback_result = None, visible = False,
       command_entry = run_command_text, run_button = ''&Run (Ctrl+R / F5)'',
       log_level_filter = ''All'', show_line_numbers_check = line_numbers,
       log_text = [], feedback_text = [] \<rparr>"

section \<open>The log store\<close>

definition view_line :: "bool \<Rightarrow> log_entry \<Rightarrow> view_line" where
  "view_line show_line_numbers e =
     (case e of (line, level, line_number) \<Rightarrow>
        (if show_line_numbers then Some line_number else None, line))"

text \<open>
  The test of both loops, \<open>current_filter != "All" and level != current_filter and
  level != "Other"\<close>: the line is skipped when it holds.
\<close>

definition filtered_out :: "string \<Rightarrow> string \<Rightarrow> bool" where
  "filtered_out current_filter level =
     (current_filter \<noteq> ''All'' \<and> level \<noteq> current_filter \<and> level \<noteq> ''Other'')"

text \<open>The loop of \<open>_append_log\<close> over the lines of one chunk.\<close>

fun append_lines :: "string list \<Rightarrow> FeedbackUI \<Rightarrow> FeedbackUI" where
  "append_lines [] st = st"
| "append_lines (line # lines) st =
     (let level = detect_log_level line;
          line_number = length (log_entries st) + 1;
          st1 = st\<lparr>log_entries := log_entries st @ [(line, level, line_number)]\<rparr>
      in if filtered_out (log_level_filter st1) level then append_lines lines st1
         else append_lines lines
                (st1\<lparr>log_text := log_text st1 @
                   [view_line (show_line_numbers_check st1) (line, level, line_number)]\<rparr>))"

definition append_log :: "FeedbackUI \<Rightarrow> string \<Rightarrow> FeedbackUI" where
  "append_log st text_chunk =
     append_lines (split_newline (rstrip text_chunk))
       (st\<lparr>log_buffer := log_buffer st @ [text_chunk]\<rparr>)"

text \<open>The loop of \<open>_apply_log_filter\<close>; \<open>shown\<close> is the view built so far.\<close>

fun filter_entries :: "string \<Rightarrow> bool \<Rightarrow> log_entry list \<Rightarrow> view_line list \<Rightarrow> view_line list" where
  "filter_entries current_filter show_line_numbers [] shown = shown"
| "filter_entries current_filter show_line_numbers ((line, level, line_number) # es) shown =
     (if filtered_out current_filter level
      then filter_entries current_filter show_line_numbers es shown
      else filter_entries current_filter show_line_numbers es
             (shown @ [view_line show_line_numbers (line, level, line_number)]))"

definition apply_log_filter :: "FeedbackUI \<Rightarrow> FeedbackUI" where
  "apply_log_filter st =
     st\<lparr>log_text := filter_entries (log_level_filter st) (show_line_numbers_check st)
                       (log_entries st) []\<rparr>"

definition clear_logs :: "FeedbackUI \<Rightarrow> FeedbackUI" where
  "clear_logs st = st\<lparr>log_buffer := [], log_text := []\<rparr>"

text \<open>\<open>"".join(self.log_buffer)\<close>, what copy, export and the result take as the logs.\<close>

definition joined_logs :: "FeedbackUI \<Rightarrow> string" where
  "joined_logs st = concat (log_buffer st)"

section \<open>Processes\<close>

text \<open>
  \<open>subprocess\<close> and \<open>psutil\<close> are not code of the repository. The handlers take them as a
  record of operations on a state \<open>'w\<close> of the operating system, so every theorem holds
  however these operations behave. A process object is its pid. \<open>Popen\<close> gives the pid of
  the child or the message of the exception it raised; the constructor
  \<open>psutil.Process(pid)\<close>, \<open>children(recursive=True)\<close> and \<open>is_running()\<close> read the state and
  may raise a \<open>psutil.Error\<close>; \<open>kill()\<close> and \<open>terminate()\<close> change it and may raise one.
\<close>

datatype psutil_error = NoSuchProcess | ZombieProcess | AccessDenied | TimeoutExpired

record 'w os_api =
  Popen :: "string \<Rightarrow> 'w \<Rightarrow> (string + nat) \<times> 'w"
  Process :: "nat \<Rightarrow> 'w \<Rightarrow> psutil_error + nat"
  children :: "nat \<Rightarrow> 'w \<Rightarrow> psutil_error + nat list"
  kill :: "nat \<Rightarrow> 'w \<Rightarrow> psutil_error option \<times> 'w"
  is_running :: "nat \<Rightarrow> 'w \<Rightarrow> psutil_error + bool"
  terminate :: "nat \<Rightarrow> 'w \<Rightarrow> psutil_error option \<times> 'w"

text \<open>
  The first loop of \<open>kill_tree\<close>: a process joins \<open>killed\<close> when its \<open>kill()\<close> raised
  nothing; a \<open>psutil.Error\<close> is passed over.
\<close>

fun kill_children :: "'w os_api \<Rightarrow> nat list \<Rightarrow> nat list \<Rightarrow> 'w \<Rightarrow> nat list \<times> 'w" where
  "kill_children api [] killed w = (killed, w)"
| "kill_children api (proc # procs) killed w =
     (case kill api proc w of
        (None, w') \<Rightarrow> kill_children api procs (killed @ [proc]) w'
      | (Some e, w') \<Rightarrow> kill_children api procs killed w')"

text \<open>
  The last loop: \<open>terminate()\<close> for every process of \<open>killed\<close> that \<open>is_running()\<close>; an
  error of either call is passed over.
\<close>

fun terminate_remaining :: "'w os_api \<Rightarrow> nat list \<Rightarrow> 'w \<Rightarrow> 'w" where
  "terminate_remaining api [] w = w"
| "terminate_remaining api (proc # procs) w =
     (case is_running api proc w of
        Inl e \<Rightarrow> terminate_remaining api procs w
      | Inr running \<Rightarrow>
          if running then terminate_remaining api procs (snd (terminate api proc w))
          else terminate_remaining api procs w)"

text \<open>
  \<open>kill_tree\<close>. The constructor and the enumeration of the children stand outside every
  \<open>try\<close>: their error is the function's. The parent joins \<open>killed\<close> whether its \<open>kill()\<close>
  raised or not.
\<close>

definition kill_tree :: "'w os_api \<Rightarrow> nat \<Rightarrow> 'w \<Rightarrow> psutil_error + 'w" where
  "kill_tree api pid w =
     (case Process api pid w of
        Inl e \<Rightarrow> Inl e
      | Inr parent \<Rightarrow>
          (case children api parent w of
             Inl e \<Rightarrow> Inl e
           | Inr procs \<Rightarrow>
               (case kill_children api procs [] w of
                  (killed, w1) \<Rightarrow>
                    Inr (terminate_remaining api (killed @ [parent])
                           (snd (kill api parent w1))))))"

section \<open>The handlers of a run\<close>

text \<open>
  \<open>_run_command\<close>. An exception of \<open>kill_tree\<close> leaves the handler before the process is
  forgotten; an exception of \<open>Popen\<close> is caught and logged, and the process stays
  \<open>None\<close>. The reader threads and the timer started after a successful \<open>Popen\<close> act
  later, through \<open>_append_log\<close> and \<open>_check_process_status\<close>.
\<close>

definition run_command :: "'w os_api \<Rightarrow> FeedbackUI \<Rightarrow> 'w \<Rightarrow> psutil_error + (FeedbackUI \<times> 'w)" where
  "run_command api st w =
     (case process st of
        Some p \<Rightarrow>
          (case kill_tree api p w of
             Inl e \<Rightarrow> Inl e
           | Inr w' \<Rightarrow> Inr (st\<lparr>process := None, run_button := ''&Run''\<rparr>, w'))
      | None \<Rightarrow>
          (let st1 = st\<lparr>log_buffer := []\<rparr>;
               command = command_entry st1
           in if command = [] then
                Inr (append_log st1 ''Please enter a command to run\<newline>'', w)
              else
                (let st2 = (append_log st1 (''$ '' @ command @ ''\<newline>''))
                             \<lparr>run_button := ''Sto&p''\<rparr>
                 in case Popen api command w of
                      (Inr pid, w') \<Rightarrow> Inr (st2\<lparr>process := Some pid\<rparr>, w')
                    | (Inl e, w') \<Rightarrow>
                        Inr ((append_log st2 (''Error running command: '' @ e @ ''\<newline>''))
                               \<lparr>run_button := ''&Run''\<rparr>, w'))))"




text \<open>
  \<open>run\<close>, from the return of the event loop on: \<open>st\<close> is the window when its last event was
  handled. A result counts as missing when it is \<open>None\<close> or an empty dictionary.
\<close>

definition run :: "'w os_api \<Rightarrow> FeedbackUI \<Rightarrow> 'w \<Rightarrow> psutil_error + ((string \<times> string) list \<times> 'w)" where
  "run api st w =
     (case (case process st of Some p \<Rightarrow> kill_tree api p w | None \<Rightarrow> Inr w) of
        Inl e \<Rightarrow> Inl e
      | Inr w' \<Rightarrow>
          (case feedback_result st of
             None \<Rightarrow> Inr (FeedbackResult (joined_logs st) [], w')
           | Some r \<Rightarrow>
               if r = [] then Inr (FeedbackResult (joined_logs st) [], w') else Inr (r, w')))"

text \<open>
  \<open>feedback_ui\<close>, from \<open>result = ui.run()\<close> on. \<open>json.dumps\<close> and the file system are not
  code of the repository: \<open>dumps\<close> is the encoder, and \<open>write_file path content\<close> stands for
  \<open>os.makedirs\<close> of the directory, \<open>open(path, "w")\<close> and the write; it gives the new file
  system or the message of the exception. A path or a result that is \<open>None\<close> or empty
  is falsy.
\<close>

definition feedback_ui ::
  "((string \<times> string) list \<Rightarrow> string) \<Rightarrow> (string \<Rightarrow> string \<Rightarrow> 'f \<Rightarrow> string + 'f) \<Rightarrow>
   string option \<Rightarrow> (string \<times> string) list \<Rightarrow> 'f \<Rightarrow>
   string + ((string \<times> string) list option \<times> 'f)" where
  "feedback_ui dumps write_file output_file result fs =
     (case output_file of
        None \<Rightarrow> Inr (Some result, fs)
      | Some path \<Rightarrow>
          if path \<noteq> [] \<and> result \<noteq> [] then
            (case write_file path (dumps result) fs of
               Inl e \<Rightarrow> Inl e
             | Inr fs' \<Rightarrow> Inr (None, fs'))
          else Inr (Some result, fs))"

section \<open>Running the model\<close>

text \<open>
  Calls of the log store in the order they are made: \<open>_append_log(chunk)\<close> and
  \<open>clear_logs()\<close>.
\<close>

datatype store_call = Append string | Clear

fun store_calls :: "FeedbackUI \<Rightarrow> store_call list \<Rightarrow> FeedbackUI" where
  "store_calls st [] = st"
| "store_calls st (Append chunk # calls) = store_calls (append_log st chunk) calls"
| "store_calls st (Clear # calls) = store_calls (clear_logs st) calls"

text \<open>
  The entries that the lines of a chunk become when the first of them gets the number
  \<open>n\<close>: each line with its level and the next number.
\<close>

definition numbered_lines :: "nat \<Rightarrow> string list \<Rightarrow> log_entry list" where
  "numbered_lines n ls = map (\<lambda>(i, line). (line, detect_log_level line, i)) (enumerate n ls)"

text \<open>
  An operating system that records what it is asked to do: \<open>traced api\<close> behaves as \<open>api\<close>
  and appends every \<open>Popen\<close>, \<open>kill()\<close> and \<open>terminate()\<close> it receives to a log, whether
  the call raises or not.
\<close>

datatype os_call = Spawn string | Kill nat | Terminate nat

definition traced :: "'w os_api \<Rightarrow> ('w \<times> os_call list) os_api" where
  "traced api =
     \<lparr> Popen = (\<lambda>command (w, calls).
         case Popen api command w of (r, w') \<Rightarrow> (r, (w', calls @ [Spawn command]))),
       Process = (\<lambda>pid (w, calls). Process api pid w),
       children = (\<lambda>pid (w, calls). children api pid w),
       kill = (\<lambda>pid (w, calls).
         case kill api pid w of (r, w') \<Rightarrow> (r, (w', calls @ [Kill pid]))),
       is_running = (\<lambda>pid (w, calls). is_running api pid w),
       terminate = (\<lambda>pid (w, calls).
         case terminate api pid w of (r, w') \<Rightarrow> (r, (w', calls @ [Terminate pid]))) \<rparr>"


text \<open>
  A process table to run the handlers on, as \<open>psutil\<close> reports one on a POSIX system: the
  pids that run, the pids that were killed and not yet waited for (zombies), the
  descendants of a pid, the pids that refuse every signal with \<open>AccessDenied\<close>, and the
  next free pid. A zombie is still found by \<open>psutil.Process\<close>, still listed among the
  children, \<open>is_running()\<close> still answers \<open>True\<close> for it, and a signal to it is accepted
  and changes nothing. A signal that a running process accepts makes it a zombie. A pid
  in neither list is gone: its lookup and every signal to it raise \<open>NoSuchProcess\<close>.
\<close>

record sim =
  live :: "nat list"
  zombies :: "nat list"
  descendants :: "(nat \<times> nat list) list"
  shielded :: "nat list"
  fresh :: nat

definition sim_exists :: "nat \<Rightarrow> sim \<Rightarrow> bool" where
  "sim_exists pid w = (pid \<in> set (live w) \<or> pid \<in> set (zombies w))"

definition sim_signal :: "nat \<Rightarrow> sim \<Rightarrow> psutil_error option \<times> sim" where
  "sim_signal pid w =
     (if sim_exists pid w then
        (if pid \<in> set (shielded w) then (Some AccessDenied, w)
         else if pid \<in> set (live w)
         then (None, w\<lparr>live := removeAll pid (live w), zombies := zombies w @ [pid]\<rparr>)
         else (None, w))
      else (Some NoSuchProcess, w))"

definition sim_api :: "sim os_api" where
  "sim_api =
     \<lparr> Popen = (\<lambda>command w.
         (Inr (fresh w), w\<lparr>live := fresh w # live w, fresh := Suc (fresh w)\<rparr>)),
       Process = (\<lambda>pid w. if sim_exists pid w then Inr pid else Inl NoSuchProcess),
       children = (\<lambda>pid w.
         if sim_exists pid w
         then Inr (filter (\<lambda>c. sim_exists c w)
                     (case map_of (descendants w) pid of None \<Rightarrow> [] | Some procs \<Rightarrow> procs))
         else Inl NoSuchProcess),
       kill = sim_signal,
       is_running = (\<lambda>pid w. Inr (sim_exists pid w)),
       terminate = sim_signal \<rparr>"


text \<open>A file system to run \<open>feedback_ui\<close> on: the content of each path; every write succeeds.\<close>

definition sim_write_file :: "string \<Rightarrow> string \<Rightarrow> (string \<rightharpoonup> string) \<Rightarrow> string + (string \<rightharpoonup> string)" where
  "sim_write_file path content fs = Inr (fs(path \<mapsto> content))"

text \<open>
  \<open>json.dumps\<close> on a dictionary of strings, with the defaults of the library: \<open>", "\<close> and
  \<open>": "\<close> as separators, and every character outside the printable ASCII range, the
  quotation mark and the backslash escaped.
\<close>

definition hex_digit :: "nat \<Rightarrow> char" where
  "hex_digit d = (if d < 10 then char_of (48 + d) else char_of (87 + d))"

definition json_escape :: "char \<Rightarrow> string" where
  "json_escape c = (let n = of_char c :: nat in
     if c = CHR 0x22 then [CHR 0x5C, CHR 0x22]
     else if c = CHR 0x5C then [CHR 0x5C, CHR 0x5C]
     else if c = CHR 0x0A then [CHR 0x5C, CHR ''n'']
     else if c = CHR 0x0D then [CHR 0x5C, CHR ''r'']
     else if c = CHR 0x09 then [CHR 0x5C, CHR ''t'']
     else if c = CHR 0x08 then [CHR 0x5C, CHR ''b'']
     else if c = CHR 0x0C then [CHR 0x5C, CHR ''f'']
     else if 32 \<le> n \<and> n \<le> 126 then [c]
     else [CHR 0x5C, CHR ''u'', CHR ''0'', CHR ''0'', hex_digit (n div 16), hex_digit (n mod 16)])"

definition json_string :: "string \<Rightarrow> string" where
  "json_string s = CHR 0x22 # concat (map json_escape s) @ [CHR 0x22]"

fun json_items :: "(string \<times> string) list \<Rightarrow> string" where
  "json_items [] = []"
| "json_items [(k, v)] = json_string k @ '': '' @ json_string v"
| "json_items ((k, v) # kv # kvs) =
     json_string k @ '': '' @ json_string v @ '', '' @ json_items (kv # kvs)"

definition json_dumps :: "(string \<times> string) list \<Rightarrow> string" where
  "json_dumps d = ''{'' @ json_items d @ ''}''"

section \<open>The specification's reading\<close>

text \<open>
  The lines of a chunk as the specification words them: a single trailing newline is
  trimmed from the whole chunk, then the chunk is split on newlines.
\<close>

definition chunk_lines_single_newline :: "string \<Rightarrow> string list" where
  "chunk_lines_single_newline text_chunk =
     split_newline (if text_chunk \<noteq> [] \<and> last text_chunk = CHR 0x0A
                    then butlast text_chunk else text_chunk)"

text \<open>
  A word written in any letter case: it equals the keyword once its capital letters are
  made small. A word standing alone between \<open>before\<close> and \<open>after\<close>: no word character
  touches it on either side.
\<close>

definition lower :: "char \<Rightarrow> char" where
  "lower c = (let n = of_char c :: nat in if 65 \<le> n \<and> n \<le> 90 then char_of (n + 32) else c)"

definition stands_alone :: "string \<Rightarrow> string \<Rightarrow> bool" where
  "stands_alone before after =
     ((before = [] \<or> \<not> is_word_char (last before)) \<and>
      (after = [] \<or> \<not> is_word_char (hd after)))"




section \<open>Lemmas on the log store\<close>

lemma append_lines_frame:
  "log_buffer (append_lines ls st) = log_buffer st"
  "process (append_lines ls st) = process st"
  "log_level_filter (append_lines ls st) = log_level_filter st"
  "show_line_numbers_check (append_lines ls st) = show_line_numbers_check st"
  "feedback_result (append_lines ls st) = feedback_result st"
  "visible (append_lines ls st) = visible st"
  "run_button (append_lines ls st) = run_button st"
  "command_entry (append_lines ls st) = command_entry st"
  "feedback_text (append_lines ls st) = feedback_text st"
  by (induction ls arbitrary: st; simp add: Let_def)+

lemma append_lines_entries:
  "log_entries (append_lines ls st) =
     log_entries st @ numbered_lines (Suc (length (log_entries st))) ls"
  by (induction ls arbitrary: st) (simp_all add: Let_def numbered_lines_def)

lemma filter_entries_acc:
  "filter_entries f b es shown =
     shown @ map (view_line b) (filter (\<lambda>(line, level, n). \<not> filtered_out f level) es)"
  by (induction f b es shown rule: filter_entries.induct) simp_all

lemma append_lines_view:
  "log_text (append_lines ls st) =
     log_text st @ map (view_line (show_line_numbers_check st))
       (filter (\<lambda>(line, level, n). \<not> filtered_out (log_level_filter st) level)
          (numbered_lines (Suc (length (log_entries st))) ls))"
  by (induction ls arbitrary: st) (simp_all add: Let_def numbered_lines_def)

lemma split_newline_nonempty: "split_newline s \<noteq> []"
  by (induction s) (auto split: list.splits)

lemma join_split_newline: "join_newline (split_newline s) = s"
proof (induction s)
  case Nil
  show ?case by simp
next
  case (Cons c cs)
  obtain l ls where sp: "split_newline cs = l # ls"
    using split_newline_nonempty [of cs] by (cases "split_newline cs") auto
  show ?case
  proof (cases "c = CHR 0x0A")
    case True
    with Cons sp show ?thesis by simp
  next
    case False
    with Cons sp show ?thesis by (cases ls) auto
  qed
qed

lemma rstrip_decomp: "\<exists>ws. s = rstrip s @ ws \<and> list_all isspace ws"
proof -
  have "rev s = takeWhile isspace (rev s) @ dropWhile isspace (rev s)" by simp
  then have "s = rev (dropWhile isspace (rev s)) @ rev (takeWhile isspace (rev s))"
    by (metis rev_append rev_rev_ident)
  moreover have "list_all isspace (rev (takeWhile isspace (rev s)))"
    by (simp add: list_all_iff) (meson set_takeWhileD)
  ultimately show ?thesis unfolding rstrip_def by blast
qed

lemma rstrip_last: "rstrip s \<noteq> [] \<Longrightarrow> \<not> isspace (last (rstrip s))"
  unfolding rstrip_def
  by (metis dropWhile_eq_Nil_conv hd_dropWhile last_rev rev_is_Nil_conv)

lemma rstrip_all_space: "list_all isspace s \<Longrightarrow> rstrip s = []"
  by (simp add: rstrip_def list_all_iff)

lemma detect_empty: "detect_log_level [] = ''Other''"
  by (simp add: detect_log_level_def re_search_words_def match_here_def word_boundary_def)

lemma numbered_lines_numbers:
  "map (\<lambda>(line, level, n). n) (numbered_lines n ls) = [n..<n + length ls]"
proof -
  have "map (\<lambda>(line, level, n). n) (numbered_lines n ls) = map fst (enumerate n ls)"
    by (simp add: numbered_lines_def case_prod_unfold comp_def)
  then show ?thesis by simp
qed

lemma numbered_lines_length [simp]: "length (numbered_lines n ls) = length ls"
  by (simp add: numbered_lines_def)

text \<open>
  Whatever calls the log store receives, the numbers of its entries are 1, 2, 3, ... in
  order: every entry gets the length of \<open>log_entries\<close> plus one, and nothing removes an
  entry.
\<close>

lemma store_calls_numbers:
  "map (\<lambda>(line, level, n). n) (log_entries st) = [1..<Suc (length (log_entries st))] \<Longrightarrow>
   map (\<lambda>(line, level, n). n) (log_entries (store_calls st calls)) =
     [1..<Suc (length (log_entries (store_calls st calls)))]"
proof (induction st calls rule: store_calls.induct)
  case (1 st)
  then show ?case by simp
next
  case (2 st chunk calls)
  have "map (\<lambda>(line, level, n). n) (log_entries (append_log st chunk)) =
          [1..<Suc (length (log_entries (append_log st chunk)))]"
    using "2.prems" upt_add_eq_append [of 1 "Suc (length (log_entries st))" "length (split_newline (rstrip chunk))"]
    by (simp add: append_log_def append_lines_entries numbered_lines_numbers del: upt_Suc)
  then show ?case using "2.IH" by simp
next
  case (3 st calls)
  then show ?case by (simp add: clear_logs_def)
qed

lemma new_window_numbers:
  "map (\<lambda>(line, level, n). n) (log_entries (store_calls (new_window p c b) calls)) =
     [1..<Suc (length (log_entries (store_calls (new_window p c b) calls)))]"
  by (rule store_calls_numbers) (simp add: new_window_def)

section \<open>Lemmas on the search\<close>

lemma match_here_search: "match_here alts prev s \<Longrightarrow> search_from alts prev s"
  by (cases s) simp_all

lemma search_from_append:
  "match_here alts (if before = [] then prev else is_word_char (last before)) s \<Longrightarrow>
   search_from alts prev (before @ s)"
proof (induction before arbitrary: prev)
  case Nil
  then show ?case by (simp add: match_here_search)
next
  case (Cons c cs)
  have "search_from alts (is_word_char c) (cs @ s)"
    using Cons.prems by (intro Cons.IH) (simp split: if_splits)
  then show ?case by simp
qed

lemma match_literal_prefix:
  "k \<noteq> [] \<Longrightarrow> match_literal k prev (k @ rest) = Some (is_word_char (last k), rest)"
proof (induction k arbitrary: prev)
  case Nil
  then show ?case by simp
next
  case (Cons c cs)
  then show ?case by (cases cs) simp_all
qed

lemma match_here_word:
  assumes "k \<in> set alts" "k \<noteq> []" "is_word_char (hd k)" "is_word_char (last k)"
    and "\<not> prev" "\<not> next_is_word rest"
  shows "match_here alts prev (k @ rest)"
proof -
  have "next_is_word (k @ rest)" using assms(2,3) by (cases k) simp_all
  then have "word_boundary prev (k @ rest)" using assms(5) by (simp add: word_boundary_def)
  moreover have "word_boundary (is_word_char (last k)) rest"
    using assms(4,6) by (simp add: word_boundary_def)
  ultimately show ?thesis
    unfolding match_here_def list_ex_iff using assms(1,2)
    by (auto simp: match_literal_prefix intro!: bexI [of _ k])
qed

lemma error_words_shape:
  "k \<in> set error_words \<Longrightarrow> k \<noteq> [] \<and> is_word_char (hd k) \<and> is_word_char (last k)"
  by (auto simp: error_words_def is_word_char_def)

lemma stands_alone_prev:
  "stands_alone before after \<Longrightarrow>
   \<not> (if before = [] then False else is_word_char (last before)) \<and> \<not> next_is_word after"
  by (cases after) (auto simp: stands_alone_def)

section \<open>Lemmas on the process tree\<close>

lemma traced_simps [simp]:
  "Popen (traced api) command (w, calls) =
     (case Popen api command w of (r, w') \<Rightarrow> (r, (w', calls @ [Spawn command])))"
  "Process (traced api) pid (w, calls) = Process api pid w"
  "children (traced api) pid (w, calls) = children api pid w"
  "kill (traced api) pid (w, calls) =
     (case kill api pid w of (r, w') \<Rightarrow> (r, (w', calls @ [Kill pid])))"
  "is_running (traced api) pid (w, calls) = is_running api pid w"
  "terminate (traced api) pid (w, calls) =
     (case terminate api pid w of (r, w') \<Rightarrow> (r, (w', calls @ [Terminate pid])))"
  by (simp_all add: traced_def)







text \<open>
  An error of the lookup or of the enumeration is not caught: it leaves \<open>kill_tree\<close>, and
  with it \<open>_run_command\<close> before the process is forgotten.
\<close>

lemma kill_tree_lookup_error:
  "Process api pid w = Inl e \<Longrightarrow> kill_tree api pid w = Inl e"
  "Process api pid w = Inr parent \<Longrightarrow> children api parent w = Inl e \<Longrightarrow>
     kill_tree api pid w = Inl e"
  by (simp_all add: kill_tree_def)

lemma run_command_kill_tree_error:
  "process st = Some p \<Longrightarrow> kill_tree api p w = Inl e \<Longrightarrow> run_command api st w = Inl e"
  by (simp add: run_command_def)

section \<open>The log store: numbering, chunks and blank lines\<close>

text \<open>
  Claim C1. For every sequence of append calls the sequence numbers are strictly
  increasing and contiguous from 1, and after \<open>clear()\<close> the next appended line is numbered
  1 again. The first half holds (\<open>new_window_numbers\<close>, for appends and clears in any
  order). The second half fails: \<open>clear_logs\<close> empties \<open>log_buffer\<close> and the view but leaves
  \<open>log_entries\<close>, whose length numbers the next line. A line appended after a clear that
  followed one line is numbered 2, and the cleared line is back in the view once the
  filter is applied again.
\<close>

theorem clear_logs_keeps_numbering:
  "log_entries (store_calls (new_window [] [] False)
       [Append ''first\<newline>'', Clear, Append ''second\<newline>'']) =
     [(''first'', ''Other'', 1), (''second'', ''Other'', 2)] \<and>
   log_text (store_calls (new_window [] [] False)
       [Append ''first\<newline>'', Clear, Append ''second\<newline>'']) =
     [(None, ''second'')] \<and>
   log_text (apply_log_filter (store_calls (new_window [] [] False)
       [Append ''first\<newline>'', Clear, Append ''second\<newline>''])) =
     [(None, ''first''), (None, ''second'')]"
  by code_simp

text \<open>
  Claim C3, as amended. \<open>_append_log\<close> removes all trailing whitespace of the chunk (every
  trailing space, tab and newline, not one newline), splits what is left on newlines,
  and appends each piece in order with its level and the next numbers. Joining the
  pieces with newlines gives the stripped chunk back, so blank lines inside it are kept
  as empty log lines; what was stripped is whitespace only, and the stripped chunk does
  not end in whitespace.
\<close>

theorem append_log_lines:
  "log_entries (append_log st text_chunk) =
     log_entries st @
       numbered_lines (Suc (length (log_entries st))) (split_newline (rstrip text_chunk)) \<and>
   join_newline (split_newline (rstrip text_chunk)) = rstrip text_chunk \<and>
   (\<exists>ws. text_chunk = rstrip text_chunk @ ws \<and> list_all isspace ws) \<and>
   (rstrip text_chunk = [] \<or> \<not> isspace (last (rstrip text_chunk)))"
  using rstrip_decomp [of text_chunk] rstrip_last [of text_chunk]
  by (auto simp add: append_log_def append_lines_entries join_split_newline)

theorem append_log_lines_witness:
  "log_entries (append_log (new_window [] [] False) ''a\<newline>\<newline>warn: b \<newline>  \<newline>'') =
     [(''a'', ''Other'', 1), ([], ''Other'', 2), (''warn: b'', ''Warning'', 3)]"
proof -
  have "numbered_lines 1 (split_newline (rstrip ''a\<newline>\<newline>warn: b \<newline>  \<newline>'')) =
          [(''a'', ''Other'', 1), ([], ''Other'', 2), (''warn: b'', ''Warning'', 3)]"
    by code_simp
  with append_log_lines [of "new_window [] [] False" "''a\<newline>\<newline>warn: b \<newline>  \<newline>''"]
  show ?thesis by (simp add: new_window_def)
qed

text \<open>
  The claim as stated fails on a chunk that ends in two newlines: trimming a single
  newline would leave the lines \<open>a\<close> and the empty line, the code appends \<open>a\<close> alone.
\<close>

theorem append_log_single_newline_counterexample:
  "log_entries (append_log (new_window [] [] False) ''a\<newline>\<newline>'') = [(''a'', ''Other'', 1)] \<and>
   chunk_lines_single_newline ''a\<newline>\<newline>'' = [''a'', []]"
  by code_simp

text \<open>
  Claim C10. A chunk that is empty or holds whitespace and newlines only still appends
  exactly one log line: its text is empty, its level is Other, its number is the next
  one.
\<close>

theorem append_log_blank_chunk:
  assumes "list_all isspace text_chunk"
  shows "log_entries (append_log st text_chunk) =
           log_entries st @ [([], ''Other'', Suc (length (log_entries st)))]"
  using assms
  by (simp add: append_log_def rstrip_all_space Let_def detect_empty)

theorem append_log_blank_chunk_witness:
  "list_all isspace ''  \<newline>\<newline>'' \<and>
   log_entries (append_log (new_window [] [] False) ''  \<newline>\<newline>'') = [([], ''Other'', 1)]"
  using append_log_blank_chunk [of "''  \<newline>\<newline>''" "new_window [] [] False"]
  by (simp add: isspace_def new_window_def)

section \<open>The filtered view\<close>

lemma filter_kept:
  "filter (\<lambda>(line, level, n). \<not> filtered_out f level) es =
     (if f = ''All'' then es
      else filter (\<lambda>(line, level, n). level = f \<or> level = ''Other'') es)"
  by (induction es) (auto simp: filtered_out_def)

lemma append_log_view:
  "log_text (append_log st text_chunk) =
     log_text st @ map (view_line (show_line_numbers_check st))
       (filter (\<lambda>(line, level, n). \<not> filtered_out (log_level_filter st) level)
          (numbered_lines (Suc (length (log_entries st))) (split_newline (rstrip text_chunk))))"
  by (simp add: append_log_def append_lines_view)

lemma append_log_frame:
  "log_level_filter (append_log st text_chunk) = log_level_filter st"
  "show_line_numbers_check (append_log st text_chunk) = show_line_numbers_check st"
  "process (append_log st text_chunk) = process st"
  "log_buffer (append_log st text_chunk) = log_buffer st @ [text_chunk]"
  "run_button (append_log st text_chunk) = run_button st"
  by (simp_all add: append_log_def append_lines_frame)

lemma append_log_entries:
  "log_entries (append_log st text_chunk) =
     log_entries st @
       numbered_lines (Suc (length (log_entries st))) (split_newline (rstrip text_chunk))"
  by (simp add: append_log_def append_lines_entries)

lemma apply_log_filter_view:
  "log_text (apply_log_filter st) =
     map (view_line (show_line_numbers_check st))
       (filter (\<lambda>(line, level, n). \<not> filtered_out (log_level_filter st) level) (log_entries st))"
  by (simp add: apply_log_filter_def filter_entries_acc)

lemma append_log_view_consistent:
  assumes "log_text st = log_text (apply_log_filter st)"
  shows "log_text (append_log st text_chunk) =
           log_text (apply_log_filter (append_log st text_chunk))"
proof -
  have "log_text (append_log st text_chunk) =
          log_text (apply_log_filter st) @ map (view_line (show_line_numbers_check st))
            (filter (\<lambda>(line, level, n). \<not> filtered_out (log_level_filter st) level)
               (numbered_lines (Suc (length (log_entries st))) (split_newline (rstrip text_chunk))))"
    using assms by (simp add: append_log_view)
  also have "\<dots> = log_text (apply_log_filter (append_log st text_chunk))"
    by (simp add: apply_log_filter_view append_log_entries append_log_frame)
  finally show ?thesis .
qed

text \<open>
  Claim C4. Whatever the log store holds, re-rendering with a filter other than \<open>All\<close>
  shows exactly the entries whose level is the filter or \<open>Other\<close>, in the order of the
  store, and with \<open>All\<close> it shows every entry. The view that \<open>_append_log\<close> extends line by
  line agrees with it: a view that equals the re-rendering still does after a chunk is
  appended.
\<close>

theorem apply_log_filter_shows:
  "log_text (apply_log_filter st) =
     map (view_line (show_line_numbers_check st))
       (if log_level_filter st = ''All'' then log_entries st
        else filter (\<lambda>(line, level, n). level = log_level_filter st \<or> level = ''Other'')
               (log_entries st)) \<and>
   (log_text st = log_text (apply_log_filter st) \<longrightarrow>
    log_text (append_log st text_chunk) = log_text (apply_log_filter (append_log st text_chunk)))"
proof (intro conjI impI)
  show "log_text (apply_log_filter st) =
     map (view_line (show_line_numbers_check st))
       (if log_level_filter st = ''All'' then log_entries st
        else filter (\<lambda>(line, level, n). level = log_level_filter st \<or> level = ''Other'')
               (log_entries st))"
    by (simp only: apply_log_filter_view filter_kept)
next
  assume "log_text st = log_text (apply_log_filter st)"
  then show "log_text (append_log st text_chunk) =
             log_text (apply_log_filter (append_log st text_chunk))"
    by (rule append_log_view_consistent)
qed

theorem apply_log_filter_shows_witness:
  "log_text ((new_window [] [] True)\<lparr>log_level_filter := ''Error''\<rparr>) =
     log_text (apply_log_filter ((new_window [] [] True)\<lparr>log_level_filter := ''Error''\<rparr>)) \<and>
   log_text (append_log ((new_window [] [] True)\<lparr>log_level_filter := ''Error''\<rparr>)
               ''error: x\<newline>info: y\<newline>plain z\<newline>warning: w\<newline>'') =
     log_text (apply_log_filter
       (append_log ((new_window [] [] True)\<lparr>log_level_filter := ''Error''\<rparr>)
          ''error: x\<newline>info: y\<newline>plain z\<newline>warning: w\<newline>'')) \<and>
   log_text (apply_log_filter
       (append_log ((new_window [] [] True)\<lparr>log_level_filter := ''Error''\<rparr>)
          ''error: x\<newline>info: y\<newline>plain z\<newline>warning: w\<newline>'')) =
     [(Some 1, ''error: x''), (Some 3, ''plain z'')]"
proof -
  let ?st = "(new_window [] [] True)\<lparr>log_level_filter := ''Error''\<rparr>"
  let ?chunk = "''error: x\<newline>info: y\<newline>plain z\<newline>warning: w\<newline>''"
  have entries: "log_entries (append_log ?st ?chunk) =
       [(''error: x'', ''Error'', 1), (''info: y'', ''Info'', 2), (''plain z'', ''Other'', 3),
        (''warning: w'', ''Warning'', 4)]"
    by code_simp
  have before: "log_text ?st = log_text (apply_log_filter ?st)"
    by (simp add: new_window_def apply_log_filter_def)
  from apply_log_filter_shows [of ?st ?chunk] before
  have after: "log_text (append_log ?st ?chunk) =
                 log_text (apply_log_filter (append_log ?st ?chunk))"
    by blast
  from apply_log_filter_shows [of "append_log ?st ?chunk" "[]"] entries
  have "log_text (apply_log_filter (append_log ?st ?chunk)) =
          [(Some 1, ''error: x''), (Some 3, ''plain z'')]"
    by (simp add: append_log_frame new_window_def view_line_def)
  with before after show ?thesis by simp
qed

section \<open>The classifier\<close>

text \<open>
  Claim C6, as amended. A line that contains one of the nine spellings the Error pattern
  lists (each keyword in small letters, in capitals, or with a capital first letter) as a
  whole word is classified Error.
\<close>

theorem detect_log_level_error_words:
  assumes "kw \<in> set error_words" and "stands_alone before after"
  shows "detect_log_level (before @ kw @ after) = ''Error''"
proof -
  from error_words_shape [OF assms(1)] stands_alone_prev [OF assms(2)]
  have "match_here error_words (if before = [] then False else is_word_char (last before)) (kw @ after)"
    by (intro match_here_word [OF assms(1)]) simp_all
  then have "re_search_words error_words (before @ kw @ after)"
    unfolding re_search_words_def by (rule search_from_append)
  then show ?thesis by (simp add: detect_log_level_def)
qed

theorem detect_log_level_error_words_witness:
  "''FAILED'' \<in> set error_words \<and> stands_alone ''build '' '': 2 tests'' \<and>
   detect_log_level ''build FAILED: 2 tests'' = ''Error''"
  using detect_log_level_error_words [of "''FAILED''" "''build ''" "'': 2 tests''"]
  by (simp add: error_words_def stands_alone_def is_word_char_def)

text \<open>
  The claim as stated, for any letter case, fails: the pattern is matched case-sensitively,
  so a keyword in another mix of cases is not found.
\<close>

theorem detect_log_level_mixed_case_counterexample:
  "map lower ''ErRoR'' = ''error'' \<and> stands_alone ''build '' '': 2 tests'' \<and>
   detect_log_level (''build '' @ ''ErRoR'' @ '': 2 tests'') = ''Other''"
  by code_simp

section \<open>Stopping a process tree\<close>

text \<open>
  Claim C5. \<open>terminate\<close> kills every enumerated descendant, then the root, then re-attempts
  graceful termination on any process still alive after the kill pass; each failure is
  swallowed, so it never fails the caller and is safe on a process that has already
  exited. \<open>kill_tree\<close> breaks this on two inputs. For a process that has exited and is
  gone from the table, \<open>psutil.Process(process.pid)\<close>, which stands outside every \<open>try\<close>,
  raises \<open>NoSuchProcess\<close>, and \<open>kill_tree\<close> raises it to its caller. For a descendant whose
  \<open>kill()\<close> raises, here process 2, the append to \<open>killed\<close> is skipped with it, so the loop
  under the comment \<open>Terminate any remaining processes\<close> never reaches it: it is still
  running, and no \<open>terminate()\<close> is sent to it, while the root joins \<open>killed\<close> whether its
  \<open>kill()\<close> raised or not.
\<close>

theorem kill_tree_failing_inputs:
  "kill_tree sim_api 7
     \<lparr>live = [], zombies = [], descendants = [], shielded = [], fresh = 8\<rparr> =
     Inl NoSuchProcess \<and>
   kill_tree (traced sim_api) 1
     (\<lparr>live = [1, 2, 3], zombies = [], descendants = [(1, [2, 3])], shielded = [2], fresh = 4\<rparr>,
      []) =
     Inr (\<lparr>live = [2], zombies = [3, 1], descendants = [(1, [2, 3])], shielded = [2], fresh = 4\<rparr>,
          [Kill 2, Kill 3, Kill 1, Terminate 3, Terminate 1])"
  by code_simp

section \<open>Starting and stopping a command\<close>




text \<open>
  Claim C2, as amended. \<open>_run_command\<close> with no process running and an empty command
  spawns nothing and raises nothing: the operating system receives no call, the process
  stays \<open>None\<close>, the log buffer is reset to the single chunk of the message, and the
  message is appended to the log entries as one line of level Other with the next number.
\<close>

theorem run_command_empty_command:
  assumes "process st = None" and "command_entry st = []"
  shows "\<exists>st'. run_command api st w = Inr (st', w) \<and>
           run_command (traced api) st (w, []) = Inr (st', (w, [])) \<and>
           process st' = None \<and>
           log_buffer st' = [''Please enter a command to run\<newline>''] \<and>
           log_entries st' = log_entries st @
             [(''Please enter a command to run'', ''Other'', Suc (length (log_entries st)))]"
proof -
  have r: "rstrip ''Please enter a command to run\<newline>'' = ''Please enter a command to run''"
    by code_simp
  have s: "split_newline ''Please enter a command to run'' = [''Please enter a command to run'']"
    by code_simp
  have d: "detect_log_level ''Please enter a command to run'' = ''Other''"
    by code_simp
  let ?st' = "append_log (st\<lparr>log_buffer := []\<rparr>) ''Please enter a command to run\<newline>''"
  have "log_entries ?st' = log_entries st @
             [(''Please enter a command to run'', ''Other'', Suc (length (log_entries st)))]"
    by (simp add: append_log_entries r s d numbered_lines_def)
  then show ?thesis using assms
    by (intro exI [of _ ?st']) (simp add: run_command_def append_log_frame)
qed

theorem run_command_empty_command_witness:
  "process (new_window [] [] False) = None \<and> command_entry (new_window [] [] False) = [] \<and>
   (\<exists>st'. run_command sim_api (new_window [] [] False)
             \<lparr>live = [], zombies = [], descendants = [], shielded = [], fresh = 1\<rparr> =
           Inr (st', \<lparr>live = [], zombies = [], descendants = [], shielded = [], fresh = 1\<rparr>) \<and>
          process st' = None \<and>
          log_entries st' = [(''Please enter a command to run'', ''Other'', 1)])"
proof -
  have p: "process (new_window [] [] False) = None"
    and c: "command_entry (new_window [] [] False) = []"
    by (simp_all add: new_window_def)
  from run_command_empty_command [OF p c, of sim_api "\<lparr>live = [], zombies = [], descendants = [], shielded = [], fresh = 1\<rparr>"]
  obtain st' where "run_command sim_api (new_window [] [] False)
             \<lparr>live = [], zombies = [], descendants = [], shielded = [], fresh = 1\<rparr> =
           Inr (st', \<lparr>live = [], zombies = [], descendants = [], shielded = [], fresh = 1\<rparr>)"
     "process st' = None"
     "log_entries st' = log_entries (new_window [] [] False) @
             [(''Please enter a command to run'', ''Other'', Suc (length (log_entries (new_window [] [] False))))]"
    by blast
  then show ?thesis using p c by (auto simp: new_window_def)
qed

text \<open>
  The claim as stated fails: the handler returns normally, with no error, and the log
  store is not left unchanged.
\<close>

theorem run_command_empty_command_counterexample:
  "map_sum id (\<lambda>(st', w'). log_entries st')
     (run_command sim_api (new_window [] [] False)
        \<lparr>live = [], zombies = [], descendants = [], shielded = [], fresh = 1\<rparr>) =
     Inr [(''Please enter a command to run'', ''Other'', 1)] \<and>
   log_entries (new_window [] [] False) = []"
  by code_simp

section \<open>Submitting and returning the result\<close>

lemma FeedbackResult_nonempty [simp]: "FeedbackResult l u \<noteq> []"
  by (simp add: FeedbackResult_def)




text \<open>
  Claim C9. With no output path \<open>feedback_ui\<close> returns the result and writes nothing.
  With an output path it writes the JSON encoding of the dictionary with the keys
  \<open>logs\<close> and \<open>user_feedback\<close> to that path and returns \<open>None\<close>; an exception of the write is
  the function's.
\<close>

theorem feedback_ui_output:
  "feedback_ui dumps write_file None (FeedbackResult l u) fs =
     Inr (Some (FeedbackResult l u), fs) \<and>
   (path \<noteq> [] \<longrightarrow>
    feedback_ui dumps write_file (Some path) (FeedbackResult l u) fs =
      (case write_file path (dumps [(''logs'', l), (''user_feedback'', u)]) fs of
         Inl e \<Rightarrow> Inl e
       | Inr fs' \<Rightarrow> Inr (None, fs')))"
  by (simp add: feedback_ui_def FeedbackResult_def)

theorem feedback_ui_output_witness:
  "feedback_ui json_dumps sim_write_file None (FeedbackResult ''$ ls\<newline>'' ''ok'') Map.empty =
     Inr (Some [(''logs'', ''$ ls\<newline>''), (''user_feedback'', ''ok'')], Map.empty) \<and>
   (case feedback_ui json_dumps sim_write_file (Some ''out.json'')
           (FeedbackResult ''$ ls\<newline>'' ''ok'') Map.empty of
      Inl e \<Rightarrow> None
    | Inr (returned, fs') \<Rightarrow> Some (returned, fs' ''out.json'')) =
   Some (None, Some (''{'' @ json_string ''logs'' @ '': '' @ json_string ''$ ls\<newline>'' @ '', '' @
                     json_string ''user_feedback'' @ '': '' @ json_string ''ok'' @ ''}''))"
  using feedback_ui_output [of json_dumps sim_write_file "''$ ls\<newline>''" "''ok''" Map.empty "''out.json''"]
  by (simp add: sim_write_file_def json_dumps_def FeedbackResult_def)

end
